theory Spec2Isabelle
  imports Complex_Main
begin

section \<open>Top-K scored-hit collection (search/collect.go)\<close>

text \<open>
  A shallow embedding of \<^verbatim>\<open>src/search/collect.go\<close>: the \<^verbatim>\<open>PriorityQueue\<close> that
  implements Go's \<^verbatim>\<open>heap.Interface\<close>, the \<^verbatim>\<open>TopDocsCollector\<close> with its two
  closures, the \<^verbatim>\<open>TopScoreDocCollector\<close> constructor and the in-order \<^verbatim>\<open>Collect\<close>.
  Every panic of the Go code (an explicit \<^verbatim>\<open>panic(...)\<close>, a failed type assertion, an
  index out of range, a negative \<^verbatim>\<open>make\<close>) is a value \<open>Inl e\<close> of the result.
\<close>

subsection \<open>Numbers\<close>

text \<open>
  A \<^verbatim>\<open>float64\<close> score. The code only compares scores (\<^verbatim>\<open>==\<close>, \<^verbatim>\<open><\<close>, \<^verbatim>\<open><=\<close>) and never
  computes with them, so a score is its real value, one of the two infinities, or NaN;
  every comparison with NaN is false, as in Go.
\<close>

datatype float64 = NaN | NegInf | Fin real | PosInf

fun f_eq :: "float64 \<Rightarrow> float64 \<Rightarrow> bool" where
  "f_eq (Fin a) (Fin b) = (a = b)"
| "f_eq NegInf NegInf = True"
| "f_eq PosInf PosInf = True"
| "f_eq _ _ = False"

fun f_lt :: "float64 \<Rightarrow> float64 \<Rightarrow> bool" where
  "f_lt (Fin a) (Fin b) = (a < b)"
| "f_lt NegInf (Fin b) = True"
| "f_lt NegInf PosInf = True"
| "f_lt (Fin a) PosInf = True"
| "f_lt _ _ = False"

definition f_le :: "float64 \<Rightarrow> float64 \<Rightarrow> bool" where
  "f_le a b = (f_lt a b \<or> f_eq a b)"

text \<open>\<^verbatim>\<open>math.MaxFloat32\<close> is \<open>(2 - 2^-23) * 2^127\<close>, \<^verbatim>\<open>math.MaxInt32\<close> is \<open>2^31 - 1\<close>.\<close>

definition MaxFloat32 :: real where
  "MaxFloat32 = 2 ^ 128 - 2 ^ 104"

definition MaxInt32 :: int where
  "MaxInt32 = 2 ^ 31 - 1"

text \<open>
  Go's \<^verbatim>\<open>int\<close> (64 bits on the usual targets) is modelled as an \<open>int\<close>; the two places
  where the code adds (\<^verbatim>\<open>c.TotalHits++\<close>, \<^verbatim>\<open>doc + c.docBase\<close>) wrap around.
\<close>

definition wrap64 :: "int \<Rightarrow> int" where
  "wrap64 x = (x + 2 ^ 63) mod 2 ^ 64 - 2 ^ 63"

subsection \<open>Data\<close>

record ScoreDoc =
  score :: float64
  doc :: int

text \<open>
  An element of \<^verbatim>\<open>items []interface{}\<close> is either a boxed \<^verbatim>\<open>ScoreDoc\<close> value or a
  pointer \<^verbatim>\<open>*ScoreDoc\<close>; a pointer is the address of a cell of the store. The type
  assertion \<^verbatim>\<open>x.(*ScoreDoc)\<close> succeeds on a pointer only.
\<close>

datatype item = Val ScoreDoc | Ptr nat

type_synonym store = "nat \<Rightarrow> ScoreDoc"

record TopDocs =
  totalHits :: int
  scoreDocs :: "ScoreDoc list"
  maxScore :: float64

datatype error =
    PanicNumHits          \<comment> \<open>\<^verbatim>\<open>panic("numHits must be > 0; please use TotalHitCountCollector ...")\<close>\<close>
  | PanicNotSupported     \<comment> \<open>\<^verbatim>\<open>panic("not supported yet")\<close>\<close>
  | TypeAssertion         \<comment> \<open>interface conversion: the value is not a \<^verbatim>\<open>*ScoreDoc\<close>\<close>
  | IndexOutOfRange       \<comment> \<open>runtime error: index out of range\<close>
  | MakeSliceLen          \<comment> \<open>runtime error: makeslice: len out of range\<close>

text \<open>Which closure the field \<^verbatim>\<open>newTopDocs\<close> holds: the one of \<^verbatim>\<open>newTopDocsCollector\<close>
  (lines 60-65) or the one \<^verbatim>\<open>newTocScoreDocCollector\<close> installs over it (lines 140-160).\<close>

datatype hook = DefaultNewTopDocs | ScoreNewTopDocs

text \<open>
  \<^verbatim>\<open>TopDocsCollector\<close>, with the store its pointers live in; \<open>pq\<close> is \<^verbatim>\<open>pq.items\<close>.
  \<^verbatim>\<open>TopScoreDocCollector\<close> embeds it and adds \<^verbatim>\<open>pqTop\<close> (a \<^verbatim>\<open>*ScoreDoc\<close>) and \<^verbatim>\<open>docBase\<close>.
  The \<^verbatim>\<open>scorer\<close> field is an external collaborator: the score it returns during a
  \<^verbatim>\<open>Collect\<close> call is an argument of \<open>Collect\<close> below.
\<close>

record TopDocsCollector =
  mem :: store
  pq :: "item list"
  TotalHits :: int
  newTopDocs :: hook

record TopScoreDocCollector = TopDocsCollector +
  pqTop :: nat
  docBase :: int

subsection \<open>PriorityQueue: the methods of \<^verbatim>\<open>heap.Interface\<close>\<close>

text \<open>\<^verbatim>\<open>pq.less\<close>, the comparator installed at lines 130-137: \<^verbatim>\<open>items[i]\<close> is read and
  asserted to be a \<^verbatim>\<open>*ScoreDoc\<close>, then \<^verbatim>\<open>items[j]\<close>; the lesser entry is the one of lower
  score, and among equal scores the one of greater \<^verbatim>\<open>doc\<close>.\<close>

definition pq_Less :: "store \<Rightarrow> item list \<Rightarrow> nat \<Rightarrow> nat \<Rightarrow> error + bool" where
  "pq_Less m xs i j =
     (if length xs \<le> i then Inl IndexOutOfRange
      else case xs ! i of
        Val v \<Rightarrow> Inl TypeAssertion
      | Ptr a \<Rightarrow>
          if length xs \<le> j then Inl IndexOutOfRange
          else (case xs ! j of
                  Val v \<Rightarrow> Inl TypeAssertion
                | Ptr b \<Rightarrow>
                    Inr (if f_eq (score (m a)) (score (m b)) then doc (m b) < doc (m a)
                         else f_lt (score (m a)) (score (m b)))))"

definition pq_Swap :: "item list \<Rightarrow> nat \<Rightarrow> nat \<Rightarrow> error + item list" where
  "pq_Swap xs i j =
     (if length xs \<le> i \<or> length xs \<le> j then Inl IndexOutOfRange
      else Inr (xs[i := xs ! j, j := xs ! i]))"

subsection \<open>Go's \<^verbatim>\<open>container/heap\<close>\<close>

text \<open>
  The standard library's \<^verbatim>\<open>heap.Init\<close>, \<^verbatim>\<open>heap.Push\<close> and \<^verbatim>\<open>heap.Pop\<close> with their
  helpers \<^verbatim>\<open>up\<close> and \<^verbatim>\<open>down\<close>, over the methods above:
  \<^verbatim>\<open>
  func up(h Interface, j int) {
    for { i := (j - 1) / 2 // parent
      if i == j || !h.Less(j, i) { break }
      h.Swap(i, j); j = i } }
  func down(h Interface, i0, n int) bool {
    i := i0
    for { j1 := 2*i + 1
      if j1 >= n || j1 < 0 { break }
      j := j1 // left child
      if j2 := j1 + 1; j2 < n && h.Less(j2, j1) { j = j2 }
      if !h.Less(j, i) { break }
      h.Swap(i, j); i = j }
    return i > i0 }
  func Init(h Interface) { n := h.Len(); for i := n/2 - 1; i >= 0; i-- { down(h, i, n) } }
  func Push(h Interface, x any) { h.Push(x); up(h, h.Len()-1) }
  func Pop(h Interface) any { n := h.Len() - 1; h.Swap(0, n); down(h, 0, n); return h.Pop() }
  \<close>
  Indices are natural numbers; the one negative index the code can form, \<^verbatim>\<open>Swap(0, -1)\<close>
  in \<^verbatim>\<open>heap.Pop\<close> on an empty queue, is the index-out-of-range panic of \<open>heap_Pop\<close>.
\<close>

function heap_down :: "store \<Rightarrow> item list \<Rightarrow> nat \<Rightarrow> nat \<Rightarrow> error + item list" where
  "heap_down m xs i n =
     (let j1 = 2 * i + 1 in
      if n \<le> j1 then Inr xs
      else case (if j1 + 1 < n then pq_Less m xs (j1 + 1) j1 else Inr False) of
        Inl e \<Rightarrow> Inl e
      | Inr r \<Rightarrow>
          (let j = (if r then j1 + 1 else j1) in
           case pq_Less m xs j i of
             Inl e \<Rightarrow> Inl e
           | Inr lt \<Rightarrow>
               if \<not> lt then Inr xs
               else (case pq_Swap xs i j of
                       Inl e \<Rightarrow> Inl e
                     | Inr xs' \<Rightarrow> heap_down m xs' j n)))"
  by pat_completeness auto
termination
  by (relation "measure (\<lambda>(m, xs, i, n). n - i)") (auto split: if_splits)

function heap_up :: "store \<Rightarrow> item list \<Rightarrow> nat \<Rightarrow> error + item list" where
  "heap_up m xs j =
     (let i = (j - 1) div 2 in
      if i = j then Inr xs
      else case pq_Less m xs j i of
        Inl e \<Rightarrow> Inl e
      | Inr lt \<Rightarrow>
          if \<not> lt then Inr xs
          else (case pq_Swap xs i j of
                  Inl e \<Rightarrow> Inl e
                | Inr xs' \<Rightarrow> heap_up m xs' i))"
  by pat_completeness auto
termination
  by (relation "measure (\<lambda>(m, xs, j). j)") auto

text \<open>The loop of \<^verbatim>\<open>heap.Init\<close>: \<open>init_loop m xs k n\<close> runs \<^verbatim>\<open>down(h, i, n)\<close> for
  \<open>i = k - 1, \<dots>, 0\<close>.\<close>

fun init_loop :: "store \<Rightarrow> item list \<Rightarrow> nat \<Rightarrow> nat \<Rightarrow> error + item list" where
  "init_loop m xs 0 n = Inr xs"
| "init_loop m xs (Suc i) n =
     (case heap_down m xs i n of
        Inl e \<Rightarrow> Inl e
      | Inr xs' \<Rightarrow> init_loop m xs' i n)"

definition heap_Init :: "store \<Rightarrow> item list \<Rightarrow> error + item list" where
  "heap_Init m xs = init_loop m xs (length xs div 2) (length xs)"

definition heap_Push :: "store \<Rightarrow> item list \<Rightarrow> item \<Rightarrow> error + item list" where
  "heap_Push m xs x = heap_up m (xs @ [x]) (length xs)"

definition heap_Pop :: "store \<Rightarrow> item list \<Rightarrow> error + item \<times> item list" where
  "heap_Pop m xs =
     (if xs = [] then Inl IndexOutOfRange
      else case pq_Swap xs 0 (length xs - 1) of
        Inl e \<Rightarrow> Inl e
      | Inr xs1 \<Rightarrow>
         (case heap_down m xs1 0 (length xs - 1) of
            Inl e \<Rightarrow> Inl e
          | Inr xs2 \<Rightarrow> Inr (last xs2, butlast xs2)))"

text \<open>\<^verbatim>\<open>for i := k; i > 0; i-- { heap.Pop(pq) }\<close>: \<open>k\<close> pops whose values are dropped.\<close>

fun pop_loop :: "store \<Rightarrow> item list \<Rightarrow> nat \<Rightarrow> error + item list" where
  "pop_loop m xs 0 = Inr xs"
| "pop_loop m xs (Suc k) =
     (case heap_Pop m xs of
        Inl e \<Rightarrow> Inl e
      | Inr (x, xs') \<Rightarrow> pop_loop m xs' k)"

subsection \<open>TopDocsCollector\<close>

text \<open>The closure \<^verbatim>\<open>topDocsSize\<close> (lines 51-59).\<close>

definition topDocsSize :: "'a TopDocsCollector_scheme \<Rightarrow> int" where
  "topDocsSize c =
     (let n = int (length (pq c)) in
      if n \<le> TotalHits c then n else TotalHits c)"

text \<open>The two closures a \<^verbatim>\<open>newTopDocs\<close> field can hold; \<open>None\<close> is the \<^verbatim>\<open>nil\<close> slice.\<close>

definition newTopDocs_default ::
  "'a TopDocsCollector_scheme \<Rightarrow> ScoreDoc list option \<Rightarrow> int
     \<Rightarrow> error + TopDocs \<times> 'a TopDocsCollector_scheme" where
  "newTopDocs_default c results start =
     (case results of
        None \<Rightarrow> Inr (\<lparr>totalHits = 0, scoreDocs = [], maxScore = NaN\<rparr>, c)
      | Some rs \<Rightarrow> Inr (\<lparr>totalHits = TotalHits c, scoreDocs = rs, maxScore = NaN\<rparr>, c))"

definition newTopDocs_score ::
  "'a TopDocsCollector_scheme \<Rightarrow> ScoreDoc list option \<Rightarrow> int
     \<Rightarrow> error + TopDocs \<times> 'a TopDocsCollector_scheme" where
  "newTopDocs_score c results start =
     (case results of
        None \<Rightarrow> Inr (\<lparr>totalHits = 0, scoreDocs = [], maxScore = NaN\<rparr>, c)
      | Some rs \<Rightarrow>
          if start = 0 then
            (case rs of
               [] \<Rightarrow> Inl IndexOutOfRange
             | r # rest \<Rightarrow>
                 Inr (\<lparr>totalHits = TotalHits c, scoreDocs = rs, maxScore = score r\<rparr>, c))
          else
            (case pop_loop (mem c) (pq c) (length (pq c) - 1) of
               Inl e \<Rightarrow> Inl e
             | Inr xs \<Rightarrow>
                (case heap_Pop (mem c) xs of
                   Inl e \<Rightarrow> Inl e
                 | Inr (x, xs') \<Rightarrow>
                    (case x of
                       Val v \<Rightarrow> Inl TypeAssertion
                     | Ptr a \<Rightarrow>
                         Inr (\<lparr>totalHits = TotalHits c, scoreDocs = rs,
                                maxScore = score (mem c a)\<rparr>,
                              c\<lparr>pq := xs'\<rparr>)))))"

definition call_newTopDocs ::
  "'a TopDocsCollector_scheme \<Rightarrow> ScoreDoc list option \<Rightarrow> int
     \<Rightarrow> error + TopDocs \<times> 'a TopDocsCollector_scheme" where
  "call_newTopDocs c results start =
     (case newTopDocs c of
        DefaultNewTopDocs \<Rightarrow> newTopDocs_default c results start
      | ScoreNewTopDocs \<Rightarrow> newTopDocs_score c results start)"

text \<open>\<^verbatim>\<open>populateResults\<close> (lines 69-73): \<open>populateResults c ans k\<close> runs the loop body
  for \<open>i = k - 1, \<dots>, 0\<close>, writing the popped entry, copied out of its cell, to \<open>ans[i]\<close>.\<close>

fun populateResults ::
  "'a TopDocsCollector_scheme \<Rightarrow> ScoreDoc list \<Rightarrow> nat
     \<Rightarrow> error + ScoreDoc list \<times> 'a TopDocsCollector_scheme" where
  "populateResults c ans 0 = Inr (ans, c)"
| "populateResults c ans (Suc i) =
     (case heap_Pop (mem c) (pq c) of
        Inl e \<Rightarrow> Inl e
      | Inr (x, xs) \<Rightarrow>
         (case x of
            Val v \<Rightarrow> Inl TypeAssertion
          | Ptr a \<Rightarrow>
              if length ans \<le> i then Inl IndexOutOfRange
              else populateResults (c\<lparr>pq := xs\<rparr>) (ans[i := mem c a]) i))"

text \<open>The zero value of \<^verbatim>\<open>ScoreDoc\<close>, which \<^verbatim>\<open>make([]ScoreDoc, howMany)\<close> fills with.\<close>

definition zeroScoreDoc :: ScoreDoc where
  "zeroScoreDoc = \<lparr>score = Fin 0, doc = 0\<rparr>"

text \<open>\<^verbatim>\<open>TopDocsRange\<close> (lines 82-115). The arguments are Go \<^verbatim>\<open>int\<close>s; past the range
  check no subtraction of the body can overflow.\<close>

definition TopDocsRange ::
  "'a TopDocsCollector_scheme \<Rightarrow> int \<Rightarrow> int
     \<Rightarrow> error + TopDocs \<times> 'a TopDocsCollector_scheme" where
  "TopDocsRange c start howMany =
     (let size = topDocsSize c in
      if start < 0 \<or> size \<le> start \<or> howMany \<le> 0 then call_newTopDocs c None start
      else
        let howMany' = (if size - start < howMany then size - start else howMany);
            results = replicate (nat howMany') zeroScoreDoc
        in case pop_loop (mem c) (pq c) (nat (int (length (pq c)) - start - howMany')) of
             Inl e \<Rightarrow> Inl e
           | Inr xs \<Rightarrow>
              (case populateResults (c\<lparr>pq := xs\<rparr>) results (nat howMany') of
                 Inl e \<Rightarrow> Inl e
               | Inr (results', c') \<Rightarrow> call_newTopDocs c' (Some results') start))"

text \<open>\<^verbatim>\<open>TopDocs\<close> (lines 75-80).\<close>

definition TopDocs ::
  "'a TopDocsCollector_scheme \<Rightarrow> error + TopDocs \<times> 'a TopDocsCollector_scheme" where
  "TopDocs c = TopDocsRange c 0 (topDocsSize c)"

subsection \<open>TopScoreDocCollector and the in-order collector\<close>

text \<open>The sentinel of line 127, and lines 125-128: a slice of \<open>numHits\<close> boxed sentinel
  \<^bold>\<open>values\<close> (\<^verbatim>\<open>docs[i] = ScoreDoc{-math.MaxFloat32, math.MaxInt32}\<close>).

  \<^verbatim>\<open>make([]interface{}, numHits)\<close> panics with "makeslice: len out of range" on a negative
  length and on a length whose bytes exceed what the runtime may allocate: on the 64-bit
  targets that is \<open>2^48\<close> bytes, and an \<^verbatim>\<open>interface{}\<close> takes 16, so the longest slice has
  \<open>2^44\<close> elements. Below that limit memory is taken to be sufficient.\<close>

definition sentinel :: ScoreDoc where
  "sentinel = \<lparr>score = Fin (- MaxFloat32), doc = MaxInt32\<rparr>"

definition maxItems :: int where
  "maxItems = 2 ^ 44"

definition sentinelDocs :: "int \<Rightarrow> error + item list" where
  "sentinelDocs numHits =
     (if numHits < 0 \<or> maxItems < numHits then Inl MakeSliceLen
      else Inr (replicate (nat numHits) (Val sentinel)))"

text \<open>Lines 129-164 of \<^verbatim>\<open>newTocScoreDocCollector\<close>, from the slice \<open>docs\<close> on: build the
  queue, \<^verbatim>\<open>heap.Init\<close>, install the score closure, then
  \<^verbatim>\<open>pqTop := heap.Pop(pq).(*ScoreDoc); heap.Push(pq, pqTop)\<close>.\<close>

definition tocFromDocs :: "store \<Rightarrow> item list \<Rightarrow> error + TopScoreDocCollector" where
  "tocFromDocs m docs =
     (case heap_Init m docs of
        Inl e \<Rightarrow> Inl e
      | Inr xs \<Rightarrow>
         (case heap_Pop m xs of
            Inl e \<Rightarrow> Inl e
          | Inr (x, xs') \<Rightarrow>
             (case x of
                Val v \<Rightarrow> Inl TypeAssertion
              | Ptr a \<Rightarrow>
                 (case heap_Push m xs' (Ptr a) of
                    Inl e \<Rightarrow> Inl e
                  | Inr xs'' \<Rightarrow>
                      Inr \<lparr>mem = m, pq = xs'', TotalHits = 0, newTopDocs = ScoreNewTopDocs,
                           pqTop = a, docBase = 0\<rparr>))))"

text \<open>The store of a program that has allocated no \<^verbatim>\<open>ScoreDoc\<close> cell.\<close>

definition noCells :: store where
  "noCells = (\<lambda>a. zeroScoreDoc)"

definition newTocScoreDocCollector :: "int \<Rightarrow> error + TopScoreDocCollector" where
  "newTocScoreDocCollector numHits =
     (case sentinelDocs numHits of
        Inl e \<Rightarrow> Inl e
      | Inr docs \<Rightarrow> tocFromDocs noCells docs)"

definition SetNextReader :: "TopScoreDocCollector \<Rightarrow> int \<Rightarrow> TopScoreDocCollector" where
  "SetNextReader c ctxDocBase = c\<lparr>docBase := ctxDocBase\<rparr>"

definition NewInOrderTopScoreDocCollector :: "int \<Rightarrow> error + TopScoreDocCollector" where
  "NewInOrderTopScoreDocCollector numHits = newTocScoreDocCollector numHits"

definition NewTopScoreDocCollector ::
  "int \<Rightarrow> ScoreDoc \<Rightarrow> bool \<Rightarrow> error + TopScoreDocCollector" where
  "NewTopScoreDocCollector numHits after docsScoredInOrder =
     (if numHits < 0 then Inl PanicNumHits
      else if docsScoredInOrder then NewInOrderTopScoreDocCollector numHits
      else Inl PanicNotSupported)"

text \<open>\<^verbatim>\<open>Collect\<close> (lines 192-210); \<open>sc\<close> is what \<^verbatim>\<open>c.scorer.Score()\<close> returns.\<close>

definition Collect ::
  "TopScoreDocCollector \<Rightarrow> float64 \<Rightarrow> int \<Rightarrow> error + TopScoreDocCollector" where
  "Collect c sc d =
     (let c1 = c\<lparr>TotalHits := wrap64 (TotalHits c + 1)\<rparr> in
      if f_le sc (score (mem c (pqTop c))) then Inr c1
      else
        let m' = (mem c)(pqTop c := \<lparr>score = sc, doc = wrap64 (d + docBase c)\<rparr>)
        in case heap_Pop m' (pq c) of
             Inl e \<Rightarrow> Inl e
           | Inr (x, xs) \<Rightarrow>
              (case heap_Push m' xs (Ptr (pqTop c)) of
                 Inl e \<Rightarrow> Inl e
               | Inr xs' \<Rightarrow> Inr (c1\<lparr>mem := m', pq := xs'\<rparr>)))"

definition AcceptsDocsOutOfOrder :: "TopScoreDocCollector \<Rightarrow> bool" where
  "AcceptsDocsOutOfOrder c = False"

subsection \<open>A driver\<close>

text \<open>The segment driver is outside the file; \<open>collectAll\<close> is its loop over one segment:
  one \<open>Collect\<close> per hit \<open>(score, localID)\<close>, in order, stopping at the first panic.\<close>

fun collectAll ::
  "TopScoreDocCollector \<Rightarrow> (float64 \<times> int) list \<Rightarrow> error + TopScoreDocCollector" where
  "collectAll c [] = Inr c"
| "collectAll c (h # hs) =
     (case Collect c (fst h) (snd h) of
        Inl e \<Rightarrow> Inl e
      | Inr c' \<Rightarrow> collectAll c' hs)"

text \<open>A whole search over one segment: construct, \<^verbatim>\<open>SetNextReader\<close>, collect, \<^verbatim>\<open>TopDocs()\<close>.\<close>

definition searchTopDocs :: "int \<Rightarrow> int \<Rightarrow> (float64 \<times> int) list \<Rightarrow> error + TopDocs" where
  "searchTopDocs numHits base hits =
     (case NewInOrderTopScoreDocCollector numHits of
        Inl e \<Rightarrow> Inl e
      | Inr c \<Rightarrow>
         (case collectAll (SetNextReader c base) hits of
            Inl e \<Rightarrow> Inl e
          | Inr c' \<Rightarrow>
             (case TopDocs c' of
                Inl e \<Rightarrow> Inl e
              | Inr (r, c'') \<Rightarrow> Inr r)))"

subsection \<open>Observations and example states\<close>

text \<open>A heap entry that passes the assertion \<^verbatim>\<open>.(*ScoreDoc)\<close>.\<close>

fun isPtr :: "item \<Rightarrow> bool" where
  "isPtr (Ptr a) = True"
| "isPtr (Val v) = False"


definition resultOf ::
  "error + TopDocs \<times> 'a TopDocsCollector_scheme \<Rightarrow> error + TopDocs" where
  "resultOf res = (case res of Inl e \<Rightarrow> Inl e | Inr (r, c) \<Rightarrow> Inr r)"

definition heapValues :: "'a TopDocsCollector_scheme \<Rightarrow> ScoreDoc list" where
  "heapValues c = map (\<lambda>x. case x of Val v \<Rightarrow> v | Ptr a \<Rightarrow> mem c a) (pq c)"

definition heapOf :: "error + TopScoreDocCollector \<Rightarrow> error + ScoreDoc list \<times> int" where
  "heapOf res = (case res of Inl e \<Rightarrow> Inl e | Inr c \<Rightarrow> Inr (heapValues c, TotalHits c))"

text \<open>
  The constructor of the file boxes sentinel values, and no call of it returns a collector
  (lemma \<open>newTocScoreDocCollector_panics\<close> below). To exercise \<open>Collect\<close> and
  \<open>TopDocsRange\<close> all the same, \<open>ptrDocs k\<close> is the slice of \<open>k\<close> pointers to \<open>k\<close>
  distinct sentinel cells (what line 127 would hold had it stored \<^verbatim>\<open>&ScoreDoc{...}\<close>), in
  the store \<open>sentinelCells\<close>; \<open>ptrCollect\<close> runs lines 129-164 on it and then the driver.
\<close>

definition sentinelCells :: store where
  "sentinelCells = (\<lambda>a. sentinel)"

definition ptrDocs :: "nat \<Rightarrow> item list" where
  "ptrDocs k = map Ptr [0..<k]"

definition ptrCollect ::
  "nat \<Rightarrow> int \<Rightarrow> (float64 \<times> int) list \<Rightarrow> error + TopScoreDocCollector" where
  "ptrCollect k base hits =
     (case tocFromDocs sentinelCells (ptrDocs k) of
        Inl e \<Rightarrow> Inl e
      | Inr c \<Rightarrow> collectAll (SetNextReader c base) hits)"

definition ptrTopDocs :: "nat \<Rightarrow> int \<Rightarrow> (float64 \<times> int) list \<Rightarrow> error + TopDocs" where
  "ptrTopDocs k base hits =
     (case ptrCollect k base hits of
        Inl e \<Rightarrow> Inl e
      | Inr c \<Rightarrow> resultOf (TopDocs c))"

definition ptrTopDocsRange ::
  "nat \<Rightarrow> int \<Rightarrow> (float64 \<times> int) list \<Rightarrow> int \<Rightarrow> int \<Rightarrow> error + TopDocs" where
  "ptrTopDocsRange k base hits start howMany =
     (case ptrCollect k base hits of
        Inl e \<Rightarrow> Inl e
      | Inr c \<Rightarrow> resultOf (TopDocsRange c start howMany))"

text \<open>The five hits of the specification's example, as \<open>(score, localID)\<close>.\<close>

definition exampleHits :: "(float64 \<times> int) list" where
  "exampleHits = [(Fin 1, 100), (Fin 5, 101), (Fin 3, 102), (Fin 9, 103), (Fin 2, 104)]"

text \<open>
  Two collector states written out. \<open>freshK3\<close> is the state lines 129-164 build from
  \<open>ptrDocs 3\<close> (lemma \<open>freshK3_built\<close>). \<open>exampleK3\<close> is a capacity-3 collector that has
  seen five candidates and holds \<open>(3,102)\<close>, \<open>(5,101)\<close>, \<open>(9,103)\<close> in heap order, in three
  distinct cells, with \<^verbatim>\<open>pqTop\<close> on the root.
\<close>

definition freshK3 :: TopScoreDocCollector where
  "freshK3 =
     \<lparr>mem = sentinelCells, pq = [Ptr 2, Ptr 1, Ptr 0], TotalHits = 0,
      newTopDocs = ScoreNewTopDocs, pqTop = 0, docBase = 0\<rparr>"

definition exampleK3 :: TopScoreDocCollector where
  "exampleK3 =
     \<lparr>mem = (\<lambda>a. if a = 0 then \<lparr>score = Fin 3, doc = 102\<rparr>
                 else if a = 1 then \<lparr>score = Fin 5, doc = 101\<rparr>
                 else \<lparr>score = Fin 9, doc = 103\<rparr>),
      pq = [Ptr 0, Ptr 1, Ptr 2], TotalHits = 5, newTopDocs = ScoreNewTopDocs,
      pqTop = 0, docBase = 0\<rparr>"

section \<open>Lemmas about the heap operations\<close>

declare heap_down.simps [simp del] heap_up.simps [simp del]


text \<open>
  On a heap whose entries are all pointers no comparison and no swap panics: \<open>down\<close> and
  \<open>up\<close> return, keep the length and keep the entries pointers. Hence \<open>heap.Pop\<close> on a
  non-empty such heap returns a pointer and a heap one shorter.
\<close>

lemma pq_Less_ok:
  assumes "list_all isPtr xs" "i < length xs" "j < length xs"
  shows "\<exists>b. pq_Less m xs i j = Inr b"
proof -
  from assms have "isPtr (xs ! i)" "isPtr (xs ! j)"
    by (simp_all add: list_all_length)
  then obtain a b where "xs ! i = Ptr a" "xs ! j = Ptr b"
    by (cases "xs ! i"; cases "xs ! j") simp_all
  with assms show ?thesis
    by (simp add: pq_Less_def)
qed

lemma pq_Swap_ok:
  assumes "list_all isPtr xs" "i < length xs" "j < length xs"
  shows "\<exists>ys. pq_Swap xs i j = Inr ys \<and> length ys = length xs \<and> list_all isPtr ys"
  using assms by (simp add: pq_Swap_def list_all_length nth_list_update)

lemma heap_down_stop: "n \<le> 2 * i + 1 \<Longrightarrow> heap_down m xs i n = Inr xs"
  by (simp add: heap_down.simps [of m xs i n])

lemma heap_down_step:
  assumes "\<not> n \<le> 2 * i + 1"
    and "(if 2 * i + 2 < n then pq_Less m xs (2 * i + 2) (2 * i + 1) else Inr False) = Inr r"
    and "pq_Less m xs (if r then 2 * i + 2 else 2 * i + 1) i = Inr lt"
  shows "heap_down m xs i n =
           (if lt then
              (case pq_Swap xs i (if r then 2 * i + 2 else 2 * i + 1) of
                 Inl e \<Rightarrow> Inl e
               | Inr xs' \<Rightarrow> heap_down m xs' (if r then 2 * i + 2 else 2 * i + 1) n)
            else Inr xs)"
  using assms
  by (subst heap_down.simps) (auto simp: Let_def split: if_splits sum.splits)

lemma heap_down_ok:
  "list_all isPtr xs \<Longrightarrow> n \<le> length xs \<Longrightarrow>
     \<exists>ys. heap_down m xs i n = Inr ys \<and> length ys = length xs \<and> list_all isPtr ys"
proof (induction "n - i" arbitrary: xs i rule: less_induct)
  case less
  show ?case
  proof (cases "n \<le> 2 * i + 1")
    case True
    with less.prems show ?thesis
      by (simp add: heap_down_stop)
  next
    case False
    obtain r where r: "(if 2 * i + 2 < n then pq_Less m xs (2 * i + 2) (2 * i + 1)
                        else Inr False) = Inr r"
      using pq_Less_ok [OF less.prems(1), of "2 * i + 2" "2 * i + 1" m] less.prems(2) False
      by (cases "2 * i + 2 < n") auto
    define j where "j = (if r then 2 * i + 2 else 2 * i + 1)"
    have jn: "j < n" "i < j"
      using r False by (auto simp: j_def split: if_splits)
    with less.prems have jl: "j < length xs" and il: "i < length xs"
      by auto
    obtain lt where lt: "pq_Less m xs j i = Inr lt"
      using pq_Less_ok [OF less.prems(1) jl il] by blast
    note step = heap_down_step [OF False r lt [unfolded j_def], folded j_def]
    show ?thesis
    proof (cases lt)
      case False
      with step less.prems show ?thesis by simp
    next
      case True
      obtain xs' where sw: "pq_Swap xs i j = Inr xs'" "length xs' = length xs" "list_all isPtr xs'"
        using pq_Swap_ok [OF less.prems(1) il jl] by blast
      have "n - j < n - i"
        using jn by arith
      from less.hyps [OF this sw(3)] sw(2) less.prems(2)
      have "\<exists>ys. heap_down m xs' j n = Inr ys \<and> length ys = length xs' \<and> list_all isPtr ys"
        by simp
      with step True sw show ?thesis by simp
    qed
  qed
qed

lemma heap_up_stop: "heap_up m xs 0 = Inr xs"
  by (simp add: heap_up.simps [of m xs 0])

lemma heap_up_step:
  assumes "0 < j" and "pq_Less m xs j ((j - 1) div 2) = Inr lt"
  shows "heap_up m xs j =
           (if lt then
              (case pq_Swap xs ((j - 1) div 2) j of
                 Inl e \<Rightarrow> Inl e
               | Inr xs' \<Rightarrow> heap_up m xs' ((j - 1) div 2))
            else Inr xs)"
proof -
  from assms(1) have "(j - 1) div 2 \<noteq> j"
    by arith
  with assms(2) show ?thesis
    by (subst heap_up.simps) (simp add: Let_def split: sum.splits)
qed

lemma heap_up_ok:
  "list_all isPtr xs \<Longrightarrow> j < length xs \<Longrightarrow>
     \<exists>ys. heap_up m xs j = Inr ys \<and> length ys = length xs \<and> list_all isPtr ys"
proof (induction j arbitrary: xs rule: less_induct)
  case (less j)
  show ?case
  proof (cases "j = 0")
    case True
    then show ?thesis
      by (simp add: heap_up_stop less.prems)
  next
    case False
    then have pos: "0 < j" by simp
    have il: "(j - 1) div 2 < length xs" and dec: "(j - 1) div 2 < j"
      using less.prems(2) pos by auto
    obtain lt where lt: "pq_Less m xs j ((j - 1) div 2) = Inr lt"
      using pq_Less_ok [OF less.prems(1) less.prems(2) il] by blast
    note step = heap_up_step [OF pos lt]
    show ?thesis
    proof (cases lt)
      case False
      with step less.prems show ?thesis by simp
    next
      case True
      obtain xs' where sw: "pq_Swap xs ((j - 1) div 2) j = Inr xs'" "length xs' = length xs"
          "list_all isPtr xs'"
        using pq_Swap_ok [OF less.prems(1) il less.prems(2)] by blast
      from less.IH [OF dec sw(3)] sw(2) il
      have "\<exists>ys. heap_up m xs' ((j - 1) div 2) = Inr ys \<and> length ys = length xs'
              \<and> list_all isPtr ys"
        by simp
      with step True sw show ?thesis by simp
    qed
  qed
qed

lemma heap_Pop_ok:
  assumes "list_all isPtr xs" "xs \<noteq> []"
  shows "\<exists>a ys. heap_Pop m xs = Inr (Ptr a, ys) \<and> Suc (length ys) = length xs \<and> list_all isPtr ys"
proof -
  have l: "0 < length xs" "length xs - 1 < length xs"
    using assms(2) by simp_all
  obtain xs1 where sw: "pq_Swap xs 0 (length xs - 1) = Inr xs1" "length xs1 = length xs"
      "list_all isPtr xs1"
    using pq_Swap_ok [OF assms(1) l] by blast
  obtain xs2 where dn: "heap_down m xs1 0 (length xs - 1) = Inr xs2" "length xs2 = length xs1"
      "list_all isPtr xs2"
    using heap_down_ok [OF sw(3), of "length xs - 1" m 0] sw(2) by auto
  have ne: "xs2 \<noteq> []"
    using dn(2) sw(2) assms(2) by auto
  then have "isPtr (last xs2)" and "list_all isPtr (butlast xs2)"
    using dn(3) by (auto simp: list_all_iff dest: in_set_butlastD)
  then obtain a where "last xs2 = Ptr a"
    by (cases "last xs2") simp_all
  with sw dn assms(2) \<open>list_all isPtr (butlast xs2)\<close> show ?thesis
    by (simp add: heap_Pop_def)
qed

lemma heap_Push_ok:
  assumes "list_all isPtr xs"
  shows "\<exists>ys. heap_Push m xs (Ptr a) = Inr ys \<and> length ys = Suc (length xs) \<and> list_all isPtr ys"
  using heap_up_ok [of "xs @ [Ptr a]" "length xs" m] assms
  by (simp add: heap_Push_def)

lemma pop_loop_ok:
  "list_all isPtr xs \<Longrightarrow> k \<le> length xs \<Longrightarrow>
     \<exists>ys. pop_loop m xs k = Inr ys \<and> length ys + k = length xs \<and> list_all isPtr ys"
proof (induction k arbitrary: xs)
  case 0
  then show ?case by simp
next
  case (Suc k)
  then have "xs \<noteq> []" by auto
  from heap_Pop_ok [OF Suc.prems(1) this, of m]
  obtain a ys where p: "heap_Pop m xs = Inr (Ptr a, ys)" "Suc (length ys) = length xs"
      "list_all isPtr ys"
    by blast
  with Suc.prems have "k \<le> length ys" by simp
  from Suc.IH [OF p(3) this] p show ?case
    by auto
qed

section \<open>Lemmas about the collector\<close>

lemma populateResults_ok:
  "list_all isPtr (pq c) \<Longrightarrow> k \<le> length (pq c) \<Longrightarrow> k \<le> length ans \<Longrightarrow>
     \<exists>ans' c'. populateResults c ans k = Inr (ans', c') \<and> length ans' = length ans
        \<and> length (pq c') + k = length (pq c) \<and> list_all isPtr (pq c')
        \<and> mem c' = mem c \<and> TotalHits c' = TotalHits c \<and> newTopDocs c' = newTopDocs c"
proof (induction k arbitrary: c ans)
  case 0
  then show ?case by simp
next
  case (Suc k)
  then have "pq c \<noteq> []" by auto
  from heap_Pop_ok [OF Suc.prems(1) this, of "mem c"]
  obtain a ys where p: "heap_Pop (mem c) (pq c) = Inr (Ptr a, ys)" "Suc (length ys) = length (pq c)"
      "list_all isPtr ys"
    by blast
  let ?c = "c\<lparr>pq := ys\<rparr>"
  let ?ans = "ans[k := mem c a]"
  have "list_all isPtr (pq ?c)" "k \<le> length (pq ?c)" "k \<le> length ?ans"
    using p Suc.prems by simp_all
  from Suc.IH [OF this] p Suc.prems show ?case
    by auto
qed


lemma call_newTopDocs_ok:
  assumes "list_all isPtr (pq c)" "rs \<noteq> []" "start = 0 \<or> pq c \<noteq> []"
  shows "\<exists>r c'. call_newTopDocs c (Some rs) start = Inr (r, c') \<and> scoreDocs r = rs
           \<and> totalHits r = TotalHits c"
proof (cases "newTopDocs c = DefaultNewTopDocs \<or> start = 0")
  case True
  with assms(2) show ?thesis
    by (cases rs; cases "newTopDocs c")
       (auto simp: call_newTopDocs_def newTopDocs_default_def newTopDocs_score_def)
next
  case False
  then have h: "newTopDocs c = ScoreNewTopDocs" "start \<noteq> 0"
    by (cases "newTopDocs c"; simp)+
  with assms(3) have ne: "pq c \<noteq> []" by simp
  from pop_loop_ok [OF assms(1), of "length (pq c) - 1" "mem c"]
  obtain ys where ys: "pop_loop (mem c) (pq c) (length (pq c) - 1) = Inr ys"
      "length ys + (length (pq c) - 1) = length (pq c)" "list_all isPtr ys"
    by auto
  have "length ys = 1"
    using ys(2) ne by (cases "pq c") auto
  then have "ys \<noteq> []" by auto
  from heap_Pop_ok [OF ys(3) this, of "mem c"]
  obtain a zs where "heap_Pop (mem c) ys = Inr (Ptr a, zs)"
    by blast
  with h ys(1) show ?thesis
    by (simp add: call_newTopDocs_def newTopDocs_score_def)
qed


lemma TopDocsRange_ok:
  assumes ptr: "list_all isPtr (pq c)"
    and rng: "0 \<le> start" "start < topDocsSize c" "0 < howMany"
  shows "\<exists>r c'. TopDocsRange c start howMany = Inr (r, c')
           \<and> int (length (scoreDocs r)) = min howMany (topDocsSize c - start)
           \<and> totalHits r = TotalHits c"
proof -
  define size where "size = topDocsSize c"
  define hm where "hm = (if size - start < howMany then size - start else howMany)"
  define len where "len = length (pq c)"
  have sl: "size \<le> int len"
    by (simp add: size_def len_def topDocsSize_def Let_def)
  have hm: "0 < hm" "hm \<le> size - start" "hm = min howMany (size - start)"
    using rng by (auto simp: hm_def size_def)
  define d where "d = nat (int len - start - hm)"
  have d: "d \<le> len" "int d = int len - start - hm"
    using sl hm rng by (auto simp: d_def)
  from pop_loop_ok [OF ptr, of d "mem c"] d(1)
  obtain xs where xs: "pop_loop (mem c) (pq c) d = Inr xs" "length xs + d = len"
      "list_all isPtr xs"
    by (auto simp: len_def)
  let ?c = "c\<lparr>pq := xs\<rparr>"
  let ?res = "replicate (nat hm) zeroScoreDoc"
  have "list_all isPtr (pq ?c)" "nat hm \<le> length (pq ?c)" "nat hm \<le> length ?res"
    using xs d hm rng by auto
  from populateResults_ok [OF this]
  obtain res' c' where pr: "populateResults ?c ?res (nat hm) = Inr (res', c')"
      "length res' = length ?res" "length (pq c') + nat hm = length (pq ?c)"
      "list_all isPtr (pq c')" "TotalHits c' = TotalHits ?c"
    by blast
  have "res' \<noteq> []"
    using pr(2) hm(1) by auto
  moreover have "start = 0 \<or> pq c' \<noteq> []"
    using pr(3) xs(2) d(2) hm(1) rng(1) by (cases "pq c'") auto
  ultimately obtain r c'' where nt: "call_newTopDocs c' (Some res') start = Inr (r, c'')"
      "scoreDocs r = res'" "totalHits r = TotalHits c'"
    using call_newTopDocs_ok [OF pr(4)] by blast
  have "TopDocsRange c start howMany = Inr (r, c'')"
    using rng xs(1) pr(1) nt(1)
    by (simp add: TopDocsRange_def Let_def size_def [symmetric] hm_def [symmetric]
          len_def [symmetric] d_def [symmetric])
  moreover have "int (length (scoreDocs r)) = min howMany (topDocsSize c - start)"
    using nt(2) pr(2) hm by (simp add: size_def)
  ultimately show ?thesis
    using nt(3) pr(5) by simp
qed

lemma TopDocsRange_empty:
  assumes "start < 0 \<or> topDocsSize c \<le> start \<or> howMany \<le> 0"
  shows "TopDocsRange c start howMany
           = Inr (\<lparr>totalHits = 0, scoreDocs = [], maxScore = NaN\<rparr>, c)"
  using assms
  by (cases "newTopDocs c")
     (auto simp: TopDocsRange_def Let_def call_newTopDocs_def newTopDocs_default_def
        newTopDocs_score_def)


section \<open>The constructor\<close>

text \<open>
  Line 127 stores \<^verbatim>\<open>ScoreDoc\<close> values, and every reader of the queue asserts
  \<^verbatim>\<open>*ScoreDoc\<close>. A length \<^verbatim>\<open>make\<close> refuses panics there. Otherwise, with two entries or more
  the first comparison of \<^verbatim>\<open>heap.Init\<close> panics;
  with one entry \<^verbatim>\<open>heap.Init\<close> and \<^verbatim>\<open>heap.Pop\<close> compare nothing and the assertion on the
  popped value panics; with none \<^verbatim>\<open>heap.Pop\<close> swaps out of range.
\<close>

lemma pq_Less_Val:
  "i < n \<Longrightarrow> j < n \<Longrightarrow> pq_Less m (replicate n (Val v)) i j = Inl TypeAssertion"
  by (simp add: pq_Less_def)

lemma heap_down_Val:
  assumes "\<not> n \<le> 2 * i + 1" "n \<le> k"
  shows "heap_down m (replicate k (Val v)) i n = Inl TypeAssertion"
  using assms by (subst heap_down.simps) (simp add: Let_def pq_Less_Val)

lemma heap_Init_Val:
  assumes "2 \<le> k"
  shows "heap_Init m (replicate k (Val v)) = Inl TypeAssertion"
proof -
  from assms obtain q where q: "k div 2 = Suc q"
    by (cases "k div 2") auto
  then have "\<not> k \<le> 2 * q + 1"
    by arith
  then have "heap_down m (replicate k (Val v)) q k = Inl TypeAssertion"
    by (rule heap_down_Val) simp
  with q show ?thesis
    by (simp add: heap_Init_def)
qed

lemma newTocScoreDocCollector_panics:
  "newTocScoreDocCollector numHits =
     Inl (if numHits < 0 \<or> maxItems < numHits then MakeSliceLen
          else if numHits = 0 then IndexOutOfRange else TypeAssertion)"
proof -
  consider "numHits < 0 \<or> maxItems < numHits" | "numHits = 0" | "numHits = 1"
    | "2 \<le> numHits" "numHits \<le> maxItems"
    by linarith
  then show ?thesis
  proof cases
    case 1
    then show ?thesis
      by (simp add: newTocScoreDocCollector_def sentinelDocs_def)
  next
    case 2
    then show ?thesis
      by (simp add: newTocScoreDocCollector_def sentinelDocs_def tocFromDocs_def
            heap_Init_def heap_Pop_def maxItems_def)
  next
    case 3
    then show ?thesis
      by (simp add: newTocScoreDocCollector_def sentinelDocs_def tocFromDocs_def
            heap_Init_def heap_Pop_def pq_Swap_def heap_down_stop maxItems_def)
  next
    case 4
    then have "2 \<le> nat numHits" by simp
    from heap_Init_Val [OF this] 4 show ?thesis
      by (simp add: newTocScoreDocCollector_def sentinelDocs_def tocFromDocs_def)
  qed
qed

lemma freshK3_built: "tocFromDocs sentinelCells (ptrDocs 3) = Inr freshK3"
  by (simp add: tocFromDocs_def ptrDocs_def heap_Init_def heap_Pop_def heap_Push_def
        heap_down.simps heap_up.simps pq_Less_def pq_Swap_def sentinelCells_def
        freshK3_def sentinel_def Let_def upt_rec)


lemma Collect_length:
  assumes "Collect c sc d = Inr c'" "list_all isPtr (pq c)"
  shows "length (pq c') = length (pq c) \<and> list_all isPtr (pq c')"
proof (cases "f_le sc (score (mem c (pqTop c)))")
  case True
  with assms show ?thesis by (auto simp: Collect_def)
next
  case False
  define m' where "m' = (mem c)(pqTop c := \<lparr>score = sc, doc = wrap64 (d + docBase c)\<rparr>)"
  from assms(1) False have ne: "pq c \<noteq> []"
    by (auto simp: Collect_def Let_def heap_Pop_def)
  from heap_Pop_ok [OF assms(2) ne, of m']
  obtain a ys where p: "heap_Pop m' (pq c) = Inr (Ptr a, ys)" "Suc (length ys) = length (pq c)"
      "list_all isPtr ys"
    by blast
  from heap_Push_ok [OF p(3), of m' "pqTop c"]
  obtain zs where q: "heap_Push m' ys (Ptr (pqTop c)) = Inr zs" "length zs = Suc (length ys)"
      "list_all isPtr zs"
    by blast
  from assms(1) False p(1) q(1) have "pq c' = zs"
    by (auto simp: Collect_def Let_def m'_def [symmetric])
  with p(2) q(2,3) show ?thesis by simp
qed


section \<open>The extraction on a well-formed heap\<close>

text \<open>
  On \<open>exampleK3\<close>, the heap a top-3 collection of the example's five hits should end
  with, \<^verbatim>\<open>TopDocs()\<close> and \<^verbatim>\<open>TopDocsRange(1, 1)\<close> return the ranked hits and the maximum
  score the specification's example gives: the extraction is not where the example goes
  wrong.
\<close>

lemma extraction_on_exampleK3:
  "resultOf (TopDocs exampleK3) =
     Inr \<lparr>totalHits = 5,
          scoreDocs = [\<lparr>score = Fin 9, doc = 103\<rparr>, \<lparr>score = Fin 5, doc = 101\<rparr>,
                       \<lparr>score = Fin 3, doc = 102\<rparr>],
          maxScore = Fin 9\<rparr>
   \<and> resultOf (TopDocsRange exampleK3 1 1) =
     Inr \<lparr>totalHits = 5, scoreDocs = [\<lparr>score = Fin 5, doc = 101\<rparr>], maxScore = Fin 9\<rparr>"
  by code_simp

section \<open>The claims\<close>

text \<open>
  C1. A fresh in-order collector of capacity 3 receives, in one segment with docBase 0, the
  scores 1, 5, 3, 9, 2 with local ids 100 to 104; \<^verbatim>\<open>TopDocs()\<close> is claimed to return
  \<open>[(9,103), (5,101), (3,102)]\<close> with maxScore 9 and totalHits 5, and \<^verbatim>\<open>TopDocsRange(1, 1)\<close>
  on an identical run \<open>[(5,101)]\<close> with maxScore 9.

  The code does not: the constructor panics on the first comparison of \<^verbatim>\<open>heap.Init\<close>, a
  failed assertion \<^verbatim>\<open>.(*ScoreDoc)\<close> on a boxed value. Started instead from three pointer
  sentinels, \<open>Collect\<close> pops the root but pushes \<^verbatim>\<open>pqTop\<close>, so the heap fills with
  aliases of the one cell \<^verbatim>\<open>pqTop\<close> points to: the full result is \<open>(9,103)\<close> three times
  and the window \<open>(1, 1)\<close> is \<open>[(9,103)]\<close>.
\<close>

theorem example_search_diverges:
  "searchTopDocs 3 0 exampleHits = Inl TypeAssertion
   \<and> ptrTopDocs 3 0 exampleHits =
       Inr \<lparr>totalHits = 5,
            scoreDocs = [\<lparr>score = Fin 9, doc = 103\<rparr>, \<lparr>score = Fin 9, doc = 103\<rparr>,
                         \<lparr>score = Fin 9, doc = 103\<rparr>],
            maxScore = Fin 9\<rparr>
   \<and> ptrTopDocsRange 3 0 exampleHits 1 1 =
       Inr \<lparr>totalHits = 5, scoreDocs = [\<lparr>score = Fin 9, doc = 103\<rparr>], maxScore = Fin 9\<rparr>"
  by code_simp

text \<open>
  C2. For every sequence of N hits with increasing ids collected into a capacity-K
  collector, \<^verbatim>\<open>TopDocs()\<close> is claimed to hold \<open>min N K\<close> hits sorted by descending score,
  ties by smaller id first.

  The code returns no result for any capacity and any hits: construction panics, with
  \<^verbatim>\<open>makeslice\<close> for a negative capacity and for one beyond the longest slice, an index out
  of range for capacity 0 and a failed type assertion for every other capacity from 1 on. Started from two pointer sentinels, the hits
  \<open>(5,100)\<close>, \<open>(3,101)\<close> give \<open>(5,100)\<close> twice: the second hit is missing, and the two
  entries, one document, are in no strict order.
\<close>

theorem search_panics_for_every_capacity:
  "searchTopDocs numHits base hits =
     Inl (if numHits < 0 \<or> maxItems < numHits then MakeSliceLen
          else if numHits = 0 then IndexOutOfRange else TypeAssertion)
   \<and> ptrTopDocs 2 0 [(Fin 5, 100), (Fin 3, 101)] =
       Inr \<lparr>totalHits = 2,
            scoreDocs = [\<lparr>score = Fin 5, doc = 100\<rparr>, \<lparr>score = Fin 5, doc = 100\<rparr>],
            maxScore = Fin 5\<rparr>"
proof -
  have a: "searchTopDocs numHits base hits =
     Inl (if numHits < 0 \<or> maxItems < numHits then MakeSliceLen
          else if numHits = 0 then IndexOutOfRange else TypeAssertion)"
    by (simp add: searchTopDocs_def NewInOrderTopScoreDocCollector_def
          newTocScoreDocCollector_panics)
  have b: "ptrTopDocs 2 0 [(Fin 5, 100), (Fin 3, 101)] =
       Inr \<lparr>totalHits = 2,
            scoreDocs = [\<lparr>score = Fin 5, doc = 100\<rparr>, \<lparr>score = Fin 5, doc = 100\<rparr>],
            maxScore = Fin 5\<rparr>"
    by code_simp
  from a b show ?thesis by blast
qed

text \<open>
  C3. Once a hit has been collected, the maxScore of \<^verbatim>\<open>TopDocs()\<close> and of every valid
  \<^verbatim>\<open>TopDocsRange(start, howMany)\<close> is claimed to be the maximum of the scores submitted.

  With capacity 1 and the single score 7 the code panics in the constructor. Started from
  a pointer sentinel, the single score \<open>-10^39\<close>, a \<^verbatim>\<open>float64\<close> below the sentinel's
  \<^verbatim>\<open>-math.MaxFloat32\<close>, is rejected, and the result is the sentinel itself with maxScore
  \<^verbatim>\<open>-math.MaxFloat32\<close>.
\<close>

theorem maxScore_diverges:
  "searchTopDocs 1 0 [(Fin 7, 0)] = Inl TypeAssertion
   \<and> ptrTopDocs 1 0 [(Fin (- (10 ^ 39)), 0)] =
       Inr \<lparr>totalHits = 1, scoreDocs = [sentinel], maxScore = Fin (- MaxFloat32)\<rparr>
   \<and> f_lt (Fin (- (10 ^ 39))) (Fin (- MaxFloat32))"
  by code_simp

text \<open>
  C4. An accepting \<open>Collect\<close> is claimed to leave the heap with K entries: the previous
  ones with the minimum replaced by the new hit.

  On the heap of three pointer sentinels that lines 129-164 build, the first \<open>Collect\<close>
  (score 1, id 100) overwrites the cell of \<^verbatim>\<open>pqTop\<close>, which sits at the last index, pops
  the root, another sentinel, and pushes \<^verbatim>\<open>pqTop\<close> again: two sentinels are gone and the
  hit is in the heap twice. With the sentinels boxed as values, as the code has them, the
  constructor panics before any \<open>Collect\<close>.
\<close>

theorem Collect_accept_replaces_two:
  "NewInOrderTopScoreDocCollector 3 = Inl TypeAssertion
   \<and> heapOf (ptrCollect 3 0 []) = Inr ([sentinel, sentinel, sentinel], 0)
   \<and> heapOf (ptrCollect 3 0 [(Fin 1, 100)]) =
       Inr ([sentinel, \<lparr>score = Fin 1, doc = 100\<rparr>, \<lparr>score = Fin 1, doc = 100\<rparr>], 1)"
proof -
  have a: "NewInOrderTopScoreDocCollector 3 = Inl TypeAssertion"
    by (simp add: NewInOrderTopScoreDocCollector_def newTocScoreDocCollector_panics
          maxItems_def)
  have b: "heapOf (ptrCollect 3 0 []) = Inr ([sentinel, sentinel, sentinel], 0)"
    by code_simp
  have c: "heapOf (ptrCollect 3 0 [(Fin 1, 100)]) =
       Inr ([sentinel, \<lparr>score = Fin 1, doc = 100\<rparr>, \<lparr>score = Fin 1, doc = 100\<rparr>], 1)"
    by code_simp
  from a b c show ?thesis by blast
qed




text \<open>
  C6, as amended. For every collector state, \<^verbatim>\<open>TopDocsRange(start, howMany)\<close> with
  \<open>start < 0\<close>, or \<open>start\<close> at least \<^verbatim>\<open>topDocsSize()\<close>, or \<open>howMany \<le> 0\<close> returns the result
  with no hits, maxScore NaN and totalHits 0, whatever the collector's counter is; the
  collector, its counter included, is unchanged.
\<close>

theorem TopDocsRange_bad_range:
  assumes "start < 0 \<or> topDocsSize c \<le> start \<or> howMany \<le> 0"
  shows "TopDocsRange c start howMany
           = Inr (\<lparr>totalHits = 0, scoreDocs = [], maxScore = NaN\<rparr>, c)"
  using assms by (rule TopDocsRange_empty)

text \<open>
  Witness for C6 as amended: on \<open>exampleK3\<close>, whose effective size is 3, the three ways a
  range is bad: start \<open>-1\<close>; start 3; howMany 0.
\<close>

theorem TopDocsRange_bad_range_witness:
  "TopDocsRange exampleK3 (- 1) 1
       = Inr (\<lparr>totalHits = 0, scoreDocs = [], maxScore = NaN\<rparr>, exampleK3)
   \<and> topDocsSize exampleK3 \<le> 3
   \<and> TopDocsRange exampleK3 3 2
       = Inr (\<lparr>totalHits = 0, scoreDocs = [], maxScore = NaN\<rparr>, exampleK3)
   \<and> TopDocsRange exampleK3 0 0
       = Inr (\<lparr>totalHits = 0, scoreDocs = [], maxScore = NaN\<rparr>, exampleK3)"
  using TopDocsRange_bad_range [of "- 1" exampleK3 1]
    TopDocsRange_bad_range [of 3 exampleK3 2]
    TopDocsRange_bad_range [of 0 exampleK3 0]
  by (simp add: topDocsSize_def exampleK3_def)

text \<open>
  Counterexample to C6 as stated (the empty result keeps the collector's count): the
  collector \<open>exampleK3\<close> has seen 5 candidates, and \<^verbatim>\<open>TopDocsRange(-1, 1)\<close> returns
  totalHits 0, the constant of line 142.
\<close>

theorem empty_result_resets_count:
  "TopDocsRange exampleK3 (- 1) 1
       = Inr (\<lparr>totalHits = 0, scoreDocs = [], maxScore = NaN\<rparr>, exampleK3)
   \<and> TotalHits exampleK3 = 5"
  by (simp add: TopDocsRange_def call_newTopDocs_def newTopDocs_score_def exampleK3_def)

text \<open>
  C7. Sentinels are claimed to lose every comparison with a real hit, so that the first K
  calls of \<open>Collect\<close> are all accepted and each evicts one sentinel.

  The sentinel score is \<^verbatim>\<open>-math.MaxFloat32\<close>, not the least \<^verbatim>\<open>float64\<close>: from one pointer
  sentinel, the first hit, of score \<open>-10^39\<close>, is rejected and the heap still holds the
  sentinel. And \<open>Collect\<close> compares with \<^verbatim>\<open>pqTop\<close>, which after the first accepted hit
  points to that hit: from three pointer sentinels, the second call (score 3 after score
  5) is rejected while a sentinel is still in the heap, and the first hit is in it twice.
  With the sentinels boxed as values the constructor panics.
\<close>

theorem early_hits_rejected:
  "NewInOrderTopScoreDocCollector 3 = Inl TypeAssertion
   \<and> heapOf (ptrCollect 1 0 [(Fin (- (10 ^ 39)), 7)]) = Inr ([sentinel], 1)
   \<and> heapOf (ptrCollect 3 0 [(Fin 5, 100), (Fin 3, 101)]) =
       Inr ([sentinel, \<lparr>score = Fin 5, doc = 100\<rparr>, \<lparr>score = Fin 5, doc = 100\<rparr>], 2)"
proof -
  have a: "NewInOrderTopScoreDocCollector 3 = Inl TypeAssertion"
    by (simp add: NewInOrderTopScoreDocCollector_def newTocScoreDocCollector_panics
          maxItems_def)
  have b: "heapOf (ptrCollect 1 0 [(Fin (- (10 ^ 39)), 7)]) = Inr ([sentinel], 1)"
    by code_simp
  have c: "heapOf (ptrCollect 3 0 [(Fin 5, 100), (Fin 3, 101)]) =
       Inr ([sentinel, \<lparr>score = Fin 5, doc = 100\<rparr>, \<lparr>score = Fin 5, doc = 100\<rparr>], 2)"
    by code_simp
  from a b c show ?thesis by blast
qed

text \<open>
  C8. \<^verbatim>\<open>NewTopScoreDocCollector\<close> with \<open>numHits \<le> 0\<close> is claimed to fail with the explicit
  caller error.

  The guard of line 172 is \<^verbatim>\<open>numHits < 0\<close>, under the message "numHits must be > 0". So
  \<open>numHits = 0\<close> passes it: in order, the constructor runs on and \<^verbatim>\<open>heap.Pop\<close> on the
  empty queue panics with an index out of range; out of order, the panic is the one of the
  unsupported variant. A negative \<open>numHits\<close> does get the explicit panic.
\<close>

theorem zero_numHits_passes_guard:
  "NewTopScoreDocCollector 0 after True = Inl IndexOutOfRange
   \<and> NewTopScoreDocCollector 0 after False = Inl PanicNotSupported
   \<and> NewTopScoreDocCollector (- 1) after b = Inl PanicNumHits"
  by (simp add: NewTopScoreDocCollector_def NewInOrderTopScoreDocCollector_def
        newTocScoreDocCollector_panics maxItems_def)

text \<open>
  C9. For a collector whose heap entries are pointers, every \<open>start\<close> with
  \<open>0 \<le> start < topDocsSize()\<close> and every \<open>howMany > 0\<close> with \<open>start + howMany\<close> beyond
  \<^verbatim>\<open>topDocsSize()\<close>: \<^verbatim>\<open>TopDocsRange(start, howMany)\<close> returns, with exactly
  \<open>topDocsSize() - start\<close> hits.
\<close>

theorem TopDocsRange_clamps:
  assumes "list_all isPtr (pq c)"
    and "0 \<le> start" "start < topDocsSize c" "0 < howMany"
    and "topDocsSize c < start + howMany"
  shows "\<exists>r c'. TopDocsRange c start howMany = Inr (r, c')
           \<and> int (length (scoreDocs r)) = topDocsSize c - start"
  using TopDocsRange_ok [OF assms(1-4)] assms(5) by auto

text \<open>
  Witness for C9: on \<open>exampleK3\<close>, of effective size 3, \<^verbatim>\<open>TopDocsRange(1, 5)\<close> returns 2
  hits.
\<close>

theorem TopDocsRange_clamps_witness:
  "list_all isPtr (pq exampleK3) \<and> (0::int) \<le> 1 \<and> 1 < topDocsSize exampleK3 \<and> (0::int) < 5
   \<and> topDocsSize exampleK3 < 1 + 5
   \<and> (\<exists>r c'. TopDocsRange exampleK3 1 5 = Inr (r, c') \<and> int (length (scoreDocs r)) = 2)"
  using TopDocsRange_clamps [of exampleK3 1 5]
  by (simp add: topDocsSize_def exampleK3_def)

text \<open>
  C10. \<^verbatim>\<open>TopDocs()\<close> on a collector that has seen no candidate (\<^verbatim>\<open>TotalHits = 0\<close>)
  returns without a panic: \<^verbatim>\<open>topDocsSize()\<close> is 0, the call is \<^verbatim>\<open>TopDocsRange(0, 0)\<close>, the
  range check sends it to the \<^verbatim>\<open>nil\<close> branch, and the result has no hits, totalHits 0 and
  maxScore NaN. The collector is unchanged. This holds for every state with that counter.
\<close>

theorem TopDocs_no_hits:
  assumes "TotalHits c = 0"
  shows "topDocsSize c = 0
         \<and> TopDocs c = Inr (\<lparr>totalHits = 0, scoreDocs = [], maxScore = NaN\<rparr>, c)"
proof -
  from assms have "topDocsSize c = 0"
    by (simp add: topDocsSize_def Let_def)
  then show ?thesis
    by (simp add: TopDocs_def TopDocsRange_empty)
qed

text \<open>Witness for C10: the fresh collector \<open>freshK3\<close>.\<close>

theorem TopDocs_no_hits_witness:
  "TotalHits freshK3 = 0 \<and> topDocsSize freshK3 = 0
   \<and> TopDocs freshK3 = Inr (\<lparr>totalHits = 0, scoreDocs = [], maxScore = NaN\<rparr>, freshK3)"
  using TopDocs_no_hits [of freshK3]
  by (simp add: freshK3_def)

end
